theory Spec2Isabelle
  imports Main "HOL-Library.Word"
begin

unbundle bit_operations_syntax

section \<open>Machine integers and the generic packed colour\<close>

text \<open>
  The header declares \<^verbatim>\<open>using u8 = unsigned char; using u32 = unsigned int;\<close>.
  Both are modelled as machine words, so that every product, sum and shift of the
  source wraps exactly as it does in C++.
\<close>

type_synonym u8 = "8 word"
type_synonym u32 = "32 word"

text \<open>
  \<^verbatim>\<open>struct SColor { u32 color; ... }\<close>. The constructor computes
  \<^verbatim>\<open>(a << 24) | (r << 16) | (g << 8) | b\<close> after integer promotion of the four
  \<^verbatim>\<open>u8\<close> arguments and stores the result in the 32-bit field: each channel is widened
  to 32 bits, shifted into place and the four are or-ed together.
\<close>

record SColor =
  color :: u32

definition SColor :: "u8 \<Rightarrow> u8 \<Rightarrow> u8 \<Rightarrow> u8 \<Rightarrow> SColor" where
  "SColor a r g b =
     \<lparr>color = push_bit 24 (ucast a) OR push_bit 16 (ucast r) OR push_bit 8 (ucast g) OR ucast b\<rparr>"

definition getAlpha :: "SColor \<Rightarrow> u8" where
  "getAlpha c = ucast (drop_bit 24 (color c) AND 0xFF)"

definition getRed :: "SColor \<Rightarrow> u8" where
  "getRed c = ucast (drop_bit 16 (color c) AND 0xFF)"

definition getGreen :: "SColor \<Rightarrow> u8" where
  "getGreen c = ucast (drop_bit 8 (color c) AND 0xFF)"

definition getBlue :: "SColor \<Rightarrow> u8" where
  "getBlue c = ucast (color c AND 0xFF)"

section \<open>Pixel formats\<close>

text \<open>
  The three pixel structs. The constructor arguments are in the order of the C++
  constructors: \<^verbatim>\<open>RGBA8(r, g, b, a)\<close>, \<^verbatim>\<open>RGB8(r, g, b)\<close>, \<^verbatim>\<open>R8(r)\<close>. Equality of the
  datatype is the field-wise \<^verbatim>\<open>operator==\<close> of the source.
\<close>

datatype RGBA8 = RGBA8 u8 u8 u8 u8

datatype RGB8 = RGB8 u8 u8 u8

datatype R8 = R8 u8

definition RGBA8_fromSColor :: "SColor \<Rightarrow> RGBA8" where
  "RGBA8_fromSColor c = RGBA8 (getRed c) (getGreen c) (getBlue c) (getAlpha c)"

fun RGBA8_toSColor :: "RGBA8 \<Rightarrow> SColor" where
  "RGBA8_toSColor (RGBA8 r g b a) = SColor a r g b"

definition RGB8_fromSColor :: "SColor \<Rightarrow> RGB8" where
  "RGB8_fromSColor c = RGB8 (getRed c) (getGreen c) (getBlue c)"

fun RGB8_toSColor :: "RGB8 \<Rightarrow> SColor" where
  "RGB8_toSColor (RGB8 r g b) = SColor 255 r g b"

text \<open>
  \<^verbatim>\<open>sizeof(T)\<close> of the three formats: structs of one-byte members have no padding.
\<close>

definition sizeof_RGBA8 :: nat where
  "sizeof_RGBA8 = 4"

definition sizeof_RGB8 :: nat where
  "sizeof_RGB8 = 3"

definition sizeof_R8 :: nat where
  "sizeof_R8 = 1"


text \<open>
  The object representation: a pixel struct in memory is its members in declaration
  order, one byte each. A layout gathers what the templates use of a pixel type
  \<^verbatim>\<open>T\<close>, namely \<^verbatim>\<open>sizeof(T)\<close> and how a \<^verbatim>\<open>T\<close> is written to and read from bytes.
\<close>

record 'a layout =
  sizeof :: nat
  to_bytes :: "'a \<Rightarrow> u8 list"
  of_bytes :: "u8 list \<Rightarrow> 'a"

fun RGBA8_to_bytes :: "RGBA8 \<Rightarrow> u8 list" where
  "RGBA8_to_bytes (RGBA8 r g b a) = [r, g, b, a]"

definition RGBA8_of_bytes :: "u8 list \<Rightarrow> RGBA8" where
  "RGBA8_of_bytes bs = RGBA8 (bs ! 0) (bs ! 1) (bs ! 2) (bs ! 3)"

fun RGB8_to_bytes :: "RGB8 \<Rightarrow> u8 list" where
  "RGB8_to_bytes (RGB8 r g b) = [r, g, b]"

definition RGB8_of_bytes :: "u8 list \<Rightarrow> RGB8" where
  "RGB8_of_bytes bs = RGB8 (bs ! 0) (bs ! 1) (bs ! 2)"

fun R8_to_bytes :: "R8 \<Rightarrow> u8 list" where
  "R8_to_bytes (R8 r) = [r]"

definition R8_of_bytes :: "u8 list \<Rightarrow> R8" where
  "R8_of_bytes bs = R8 (bs ! 0)"

definition layout_RGBA8 :: "RGBA8 layout" where
  "layout_RGBA8 = \<lparr>sizeof = sizeof_RGBA8, to_bytes = RGBA8_to_bytes, of_bytes = RGBA8_of_bytes\<rparr>"

definition layout_RGB8 :: "RGB8 layout" where
  "layout_RGB8 = \<lparr>sizeof = sizeof_RGB8, to_bytes = RGB8_to_bytes, of_bytes = RGB8_of_bytes\<rparr>"

definition layout_R8 :: "R8 layout" where
  "layout_R8 = \<lparr>sizeof = sizeof_R8, to_bytes = R8_to_bytes, of_bytes = R8_of_bytes\<rparr>"

section \<open>Pointers, faults and memory\<close>

text \<open>
  A \<^verbatim>\<open>T*\<close> is either the null pointer or points into one allocation; it is modelled
  by its byte offset from the start of that allocation. The view code does all its
  pointer arithmetic on \<^verbatim>\<open>u8*\<close>, that is in bytes. The source adds a non-zero offset
  to a null pointer nowhere (a null view is empty, so every such path is behind a
  failed assertion); \<open>ptr_add\<close> leaves the null pointer alone.
\<close>

datatype ptr = nullptr | Ptr nat

fun ptr_add :: "ptr \<Rightarrow> nat \<Rightarrow> ptr" where
  "ptr_add nullptr k = nullptr"
| "ptr_add (Ptr off) k = Ptr (off + k)"

text \<open>
  What stops a call: a failed \<^verbatim>\<open>assert\<close> (the header includes \<^verbatim>\<open><cassert>\<close> and
  does not define \<^verbatim>\<open>NDEBUG\<close>, so the assertions are checked), the
  \<^verbatim>\<open>std::bad_variant_access\<close> thrown by \<^verbatim>\<open>std::get\<close>, or an access that reaches
  outside the allocation (undefined behaviour in C++, made observable here).
\<close>

datatype fault = AssertionFailed | BadVariantAccess | InvalidAccess

text \<open>
  The allocation behind a pointer is the list of its bytes. Reading a \<^verbatim>\<open>T\<close> through
  a pointer takes the \<^verbatim>\<open>sizeof(T)\<close> bytes from the pointer on, writing one replaces
  them; the pointer may stand at any byte offset, as it does in a view with padded
  rows. The access is defined when all its bytes lie inside the allocation.
\<close>

definition load :: "'a layout \<Rightarrow> u8 list \<Rightarrow> ptr \<Rightarrow> fault + 'a" where
  "load L mem p =
     (case p of
        nullptr \<Rightarrow> Inl InvalidAccess
      | Ptr off \<Rightarrow>
          if off + sizeof L \<le> length mem
          then Inr (of_bytes L (take (sizeof L) (drop off mem)))
          else Inl InvalidAccess)"

definition store :: "'a layout \<Rightarrow> u8 list \<Rightarrow> ptr \<Rightarrow> 'a \<Rightarrow> fault + u8 list" where
  "store L mem p v =
     (case p of
        nullptr \<Rightarrow> Inl InvalidAccess
      | Ptr off \<Rightarrow>
          if off + sizeof L \<le> length mem
          then Inr (take off mem @ to_bytes L v @ drop (off + sizeof L) mem)
          else Inl InvalidAccess)"

section \<open>View2d: the non-owning strided view\<close>

text \<open>
  \<^verbatim>\<open>template<typename T> class View2d\<close> with its five private members
  \<^verbatim>\<open>data_\<close>, \<^verbatim>\<open>width_\<close>, \<^verbatim>\<open>height_\<close>, \<^verbatim>\<open>x_stride_\<close>, \<^verbatim>\<open>y_stride_\<close> (a name cannot
  end in an underscore here, so each field is written with \<open>_of\<close>). The template
  parameter enters the code only through \<^verbatim>\<open>sizeof(T)\<close>, which the operations below take
  as their first argument.
\<close>

record view2d =
  data_of :: ptr
  width_of :: u32
  height_of :: u32
  x_stride_of :: u32
  y_stride_of :: u32

text \<open>
  The constructor. \<^verbatim>\<open>x_stride_(sizeof(T))\<close> and
  \<^verbatim>\<open>y_stride_(y_stride > 0 ? y_stride : width * sizeof(T))\<close> both convert a
  \<^verbatim>\<open>size_t\<close> to \<^verbatim>\<open>u32\<close>, which keeps the low 32 bits; the product itself is
  computed in \<^verbatim>\<open>size_t\<close>.
\<close>

definition View2d :: "nat \<Rightarrow> ptr \<Rightarrow> u32 \<Rightarrow> u32 \<Rightarrow> u32 \<Rightarrow> fault + view2d" where
  "View2d sizeof_T data width height y_stride =
     (if data \<noteq> nullptr \<or> (width = 0 \<and> height = 0)
      then Inr \<lparr>data_of = data, width_of = width, height_of = height,
                x_stride_of = of_nat sizeof_T,
                y_stride_of = (if y_stride > 0 then y_stride else of_nat (unat width * sizeof_T))\<rparr>
      else Inl AssertionFailed)"

text \<open>
  \<^verbatim>\<open>at(x, y)\<close> returns a reference, here the pointer it refers to. The two products
  \<^verbatim>\<open>y * y_stride_\<close> and \<^verbatim>\<open>x * x_stride_\<close> are products of \<^verbatim>\<open>u32\<close> values and wrap
  at 32 bits before they are added to the pointer.
\<close>

definition at :: "view2d \<Rightarrow> u32 \<Rightarrow> u32 \<Rightarrow> fault + ptr" where
  "at V x y =
     (if x < width_of V \<and> y < height_of V
      then Inr (ptr_add (ptr_add (data_of V) (unat (y * y_stride_of V))) (unat (x * x_stride_of V)))
      else Inl AssertionFailed)"

definition row :: "view2d \<Rightarrow> u32 \<Rightarrow> fault + ptr" where
  "row V y =
     (if y < height_of V
      then Inr (ptr_add (data_of V) (unat (y * y_stride_of V)))
      else Inl AssertionFailed)"

definition View2d_drop :: "nat \<Rightarrow> view2d \<Rightarrow> u32 \<Rightarrow> u32 \<Rightarrow> fault + view2d" where
  "View2d_drop sizeof_T V left top' =
     (if left \<le> width_of V \<and> top' \<le> height_of V
      then View2d sizeof_T
             (ptr_add (ptr_add (data_of V) (unat (top' * y_stride_of V))) (unat (left * x_stride_of V)))
             (width_of V - left) (height_of V - top') (y_stride_of V)
      else Inl AssertionFailed)"

definition View2d_take :: "nat \<Rightarrow> view2d \<Rightarrow> u32 \<Rightarrow> u32 \<Rightarrow> fault + view2d" where
  "View2d_take sizeof_T V width height =
     (if width \<le> width_of V \<and> height \<le> height_of V
      then View2d sizeof_T (data_of V) width height (y_stride_of V)
      else Inl AssertionFailed)"

definition slice :: "nat \<Rightarrow> view2d \<Rightarrow> u32 \<Rightarrow> u32 \<Rightarrow> u32 \<Rightarrow> u32 \<Rightarrow> fault + view2d" where
  "slice sizeof_T V x y width height =
     (case View2d_drop sizeof_T V x y of
        Inl e \<Rightarrow> Inl e
      | Inr D \<Rightarrow> View2d_take sizeof_T D width height)"

definition getYStride :: "view2d \<Rightarrow> u32" where
  "getYStride V = y_stride_of V"

section \<open>Array2d: the owning array\<close>

text \<open>
  \<^verbatim>\<open>owned_data_(new T[width * height])\<close>: the element count is a product of two
  \<^verbatim>\<open>u32\<close> values and wraps at 32 bits; the allocation has that many times
  \<^verbatim>\<open>sizeof(T)\<close> bytes. The elements are default-initialised, that is they hold
  whatever the memory held; \<open>junk\<close> supplies those bytes. \<^verbatim>\<open>new\<close> never returns a
  null pointer, and the view starts at the first byte of the new array. The
  allocation itself is taken to succeed. The element type of an \<^verbatim>\<open>Array2d<T>\<close> is
  carried by the alternative of the image that holds it.
\<close>

record array2d =
  owned_data_of :: "u8 list"
  view_of :: view2d

definition Array2d :: "nat \<Rightarrow> (nat \<Rightarrow> u8) \<Rightarrow> u32 \<Rightarrow> u32 \<Rightarrow> fault + array2d" where
  "Array2d sizeof_T junk width height =
     (case View2d sizeof_T (Ptr 0) width height 0 of
        Inl e \<Rightarrow> Inl e
      | Inr V \<Rightarrow>
          Inr \<lparr>owned_data_of = map junk [0..<unat (width * height) * sizeof_T], view_of = V\<rparr>)"

definition getView :: "array2d \<Rightarrow> view2d" where
  "getView arr = view_of arr"

section \<open>Image: the variant container\<close>

text \<open>
  \<^verbatim>\<open>class Image\<close> has the single member
  \<^verbatim>\<open>std::variant<Array2d<RGBA8>, Array2d<RGB8>, Array2d<R8>> data_\<close>; an image is the
  live alternative of that variant.
\<close>

datatype Image =
    Array2d_RGBA8 array2d
  | Array2d_RGB8 array2d
  | Array2d_R8 array2d

definition createRGBA8 :: "(nat \<Rightarrow> u8) \<Rightarrow> u32 \<Rightarrow> u32 \<Rightarrow> fault + Image" where
  "createRGBA8 junk width height =
     (case Array2d sizeof_RGBA8 junk width height of
        Inl e \<Rightarrow> Inl e
      | Inr arr \<Rightarrow> Inr (Array2d_RGBA8 arr))"

definition createRGB8 :: "(nat \<Rightarrow> u8) \<Rightarrow> u32 \<Rightarrow> u32 \<Rightarrow> fault + Image" where
  "createRGB8 junk width height =
     (case Array2d sizeof_RGB8 junk width height of
        Inl e \<Rightarrow> Inl e
      | Inr arr \<Rightarrow> Inr (Array2d_RGB8 arr))"

definition createR8 :: "(nat \<Rightarrow> u8) \<Rightarrow> u32 \<Rightarrow> u32 \<Rightarrow> fault + Image" where
  "createR8 junk width height =
     (case Array2d sizeof_R8 junk width height of
        Inl e \<Rightarrow> Inl e
      | Inr arr \<Rightarrow> Inr (Array2d_R8 arr))"

definition isRGBA8 :: "Image \<Rightarrow> bool" where
  "isRGBA8 img = (case img of Array2d_RGBA8 arr \<Rightarrow> True | _ \<Rightarrow> False)"

definition isRGB8 :: "Image \<Rightarrow> bool" where
  "isRGB8 img = (case img of Array2d_RGB8 arr \<Rightarrow> True | _ \<Rightarrow> False)"

definition isR8 :: "Image \<Rightarrow> bool" where
  "isR8 img = (case img of Array2d_R8 arr \<Rightarrow> True | _ \<Rightarrow> False)"

text \<open>
  \<^verbatim>\<open>std::get<Array2d<T>>(data_)\<close> throws \<^verbatim>\<open>std::bad_variant_access\<close> when another
  alternative is live.
\<close>

definition get_RGBA8 :: "Image \<Rightarrow> fault + array2d" where
  "get_RGBA8 img = (case img of Array2d_RGBA8 arr \<Rightarrow> Inr arr | _ \<Rightarrow> Inl BadVariantAccess)"

definition get_RGB8 :: "Image \<Rightarrow> fault + array2d" where
  "get_RGB8 img = (case img of Array2d_RGB8 arr \<Rightarrow> Inr arr | _ \<Rightarrow> Inl BadVariantAccess)"

definition get_R8 :: "Image \<Rightarrow> fault + array2d" where
  "get_R8 img = (case img of Array2d_R8 arr \<Rightarrow> Inr arr | _ \<Rightarrow> Inl BadVariantAccess)"

definition getAsRGBA8 :: "Image \<Rightarrow> fault + view2d" where
  "getAsRGBA8 img = (case get_RGBA8 img of Inl e \<Rightarrow> Inl e | Inr arr \<Rightarrow> Inr (getView arr))"

definition getAsRGB8 :: "Image \<Rightarrow> fault + view2d" where
  "getAsRGB8 img = (case get_RGB8 img of Inl e \<Rightarrow> Inl e | Inr arr \<Rightarrow> Inr (getView arr))"

definition getAsR8 :: "Image \<Rightarrow> fault + view2d" where
  "getAsR8 img = (case get_R8 img of Inl e \<Rightarrow> Inl e | Inr arr \<Rightarrow> Inr (getView arr))"

definition getWidth :: "Image \<Rightarrow> u32" where
  "getWidth img =
     (case img of
        Array2d_RGBA8 arr \<Rightarrow> width_of (view_of arr)
      | Array2d_RGB8 arr \<Rightarrow> width_of (view_of arr)
      | Array2d_R8 arr \<Rightarrow> width_of (view_of arr))"

definition getHeight :: "Image \<Rightarrow> u32" where
  "getHeight img =
     (case img of
        Array2d_RGBA8 arr \<Rightarrow> height_of (view_of arr)
      | Array2d_RGB8 arr \<Rightarrow> height_of (view_of arr)
      | Array2d_R8 arr \<Rightarrow> height_of (view_of arr))"

subsection \<open>The loops of fill\<close>

lemma u32_loop_step:
  fixes x w :: u32
  assumes "x < w"
  shows "unat w - unat (x + 1) < unat w - unat x"
  using assms by unat_arith

text \<open>
  The inner loop \<^verbatim>\<open>for (u32 x = 0; x < view.getWidth(); ++x) row_ptr[x] = v;\<close> from
  counter value \<open>x\<close> on. \<^verbatim>\<open>row_ptr[x]\<close> is arithmetic on a \<^verbatim>\<open>T*\<close>: it moves by
  \<open>x\<close> whole elements and does not wrap at 32 bits.
\<close>

function fill_row :: "'a layout \<Rightarrow> ptr \<Rightarrow> u32 \<Rightarrow> 'a \<Rightarrow> u32 \<Rightarrow> u8 list \<Rightarrow> fault + u8 list" where
  "fill_row L row_ptr width v x mem =
     (if x < width
      then (case store L mem (ptr_add row_ptr (unat x * sizeof L)) v of
              Inl e \<Rightarrow> Inl e
            | Inr mem' \<Rightarrow> fill_row L row_ptr width v (x + 1) mem')
      else Inr mem)"
  by pat_completeness auto
termination
  by (relation "measure (\<lambda>(L, row_ptr, width, v, x, mem). unat width - unat x)")
     (auto simp: u32_loop_step)

text \<open>
  The outer loop \<^verbatim>\<open>for (u32 y = 0; y < view.getHeight(); ++y)\<close> from counter value
  \<open>y\<close> on; each round takes \<^verbatim>\<open>view.row(y)\<close> and runs the inner loop from 0.
\<close>

function fill_rows :: "'a layout \<Rightarrow> view2d \<Rightarrow> 'a \<Rightarrow> u32 \<Rightarrow> u8 list \<Rightarrow> fault + u8 list" where
  "fill_rows L V v y mem =
     (if y < height_of V
      then (case row V y of
              Inl e \<Rightarrow> Inl e
            | Inr row_ptr \<Rightarrow>
                (case fill_row L row_ptr (width_of V) v 0 mem of
                   Inl e \<Rightarrow> Inl e
                 | Inr mem' \<Rightarrow> fill_rows L V v (y + 1) mem'))
      else Inr mem)"
  by pat_completeness auto
termination
  by (relation "measure (\<lambda>(L, V, v, y, mem). unat (height_of V) - unat y)")
     (auto simp: u32_loop_step)

declare fill_row.simps [simp del]
declare fill_rows.simps [simp del]

subsection \<open>The generic-colour operations\<close>

text \<open>
  \<^verbatim>\<open>fill\<close>, \<^verbatim>\<open>getPixel\<close> and \<^verbatim>\<open>setPixel\<close> test \<^verbatim>\<open>isRGBA8()\<close>, then \<^verbatim>\<open>isRGB8()\<close>, and do
  nothing for the remaining alternative. The mutating operations return the image
  after the call.
\<close>

definition fill :: "Image \<Rightarrow> SColor \<Rightarrow> fault + Image" where
  "fill img col =
     (if isRGBA8 img then
        (case get_RGBA8 img of
           Inl e \<Rightarrow> Inl e
         | Inr arr \<Rightarrow>
             (case fill_rows layout_RGBA8 (getView arr) (RGBA8_fromSColor col) 0 (owned_data_of arr) of
                Inl e \<Rightarrow> Inl e
              | Inr mem \<Rightarrow> Inr (Array2d_RGBA8 (arr\<lparr>owned_data_of := mem\<rparr>))))
      else if isRGB8 img then
        (case get_RGB8 img of
           Inl e \<Rightarrow> Inl e
         | Inr arr \<Rightarrow>
             (case fill_rows layout_RGB8 (getView arr) (RGB8_fromSColor col) 0 (owned_data_of arr) of
                Inl e \<Rightarrow> Inl e
              | Inr mem \<Rightarrow> Inr (Array2d_RGB8 (arr\<lparr>owned_data_of := mem\<rparr>))))
      else Inr img)"

definition getPixel :: "Image \<Rightarrow> u32 \<Rightarrow> u32 \<Rightarrow> fault + SColor" where
  "getPixel img x y =
     (if isRGBA8 img then
        (case get_RGBA8 img of
           Inl e \<Rightarrow> Inl e
         | Inr arr \<Rightarrow>
             (case at (getView arr) x y of
                Inl e \<Rightarrow> Inl e
              | Inr p \<Rightarrow>
                  (case load layout_RGBA8 (owned_data_of arr) p of
                     Inl e \<Rightarrow> Inl e
                   | Inr px \<Rightarrow> Inr (RGBA8_toSColor px))))
      else if isRGB8 img then
        (case get_RGB8 img of
           Inl e \<Rightarrow> Inl e
         | Inr arr \<Rightarrow>
             (case at (getView arr) x y of
                Inl e \<Rightarrow> Inl e
              | Inr p \<Rightarrow>
                  (case load layout_RGB8 (owned_data_of arr) p of
                     Inl e \<Rightarrow> Inl e
                   | Inr px \<Rightarrow> Inr (RGB8_toSColor px))))
      else Inr (SColor 0 0 0 0))"

definition setPixel :: "Image \<Rightarrow> u32 \<Rightarrow> u32 \<Rightarrow> SColor \<Rightarrow> fault + Image" where
  "setPixel img x y col =
     (if isRGBA8 img then
        (case get_RGBA8 img of
           Inl e \<Rightarrow> Inl e
         | Inr arr \<Rightarrow>
             (case at (getView arr) x y of
                Inl e \<Rightarrow> Inl e
              | Inr p \<Rightarrow>
                  (case store layout_RGBA8 (owned_data_of arr) p (RGBA8_fromSColor col) of
                     Inl e \<Rightarrow> Inl e
                   | Inr mem \<Rightarrow> Inr (Array2d_RGBA8 (arr\<lparr>owned_data_of := mem\<rparr>)))))
      else if isRGB8 img then
        (case get_RGB8 img of
           Inl e \<Rightarrow> Inl e
         | Inr arr \<Rightarrow>
             (case at (getView arr) x y of
                Inl e \<Rightarrow> Inl e
              | Inr p \<Rightarrow>
                  (case store layout_RGB8 (owned_data_of arr) p (RGB8_fromSColor col) of
                     Inl e \<Rightarrow> Inl e
                   | Inr mem \<Rightarrow> Inr (Array2d_RGB8 (arr\<lparr>owned_data_of := mem\<rparr>)))))
      else Inr img)"

text \<open>Sample uninitialised contents for the concrete scenarios.\<close>

definition zero_junk :: "nat \<Rightarrow> u8" where
  "zero_junk i = 0"

definition index_junk :: "nat \<Rightarrow> u8" where
  "index_junk i = of_nat i"

text \<open>
  What the proofs about memory use of a layout: a value takes \<open>sizeof\<close> bytes, at
  least one, and reads back from its own bytes. The three pixel layouts have it.
\<close>

definition layout_ok :: "'a layout \<Rightarrow> bool" where
  "layout_ok L \<longleftrightarrow>
     0 < sizeof L \<and> (\<forall>v. length (to_bytes L v) = sizeof L \<and> of_bytes L (to_bytes L v) = v)"

section \<open>Colour conversions\<close>

lemma byte_mask: "(0xFF :: u32) = mask 8"
  by (simp add: mask_eq_exp_minus_1)

lemma getAlpha_SColor: "getAlpha (SColor a r g b) = a"
  unfolding getAlpha_def SColor_def byte_mask
  by (rule bit_word_eqI) (auto simp add: bit_simps dest: bit_imp_le_length)

lemma getRed_SColor: "getRed (SColor a r g b) = r"
  unfolding getRed_def SColor_def byte_mask
  by (rule bit_word_eqI) (auto simp add: bit_simps dest: bit_imp_le_length)

lemma getGreen_SColor: "getGreen (SColor a r g b) = g"
  unfolding getGreen_def SColor_def byte_mask
  by (rule bit_word_eqI) (auto simp add: bit_simps dest: bit_imp_le_length)

lemma getBlue_SColor: "getBlue (SColor a r g b) = b"
  unfolding getBlue_def SColor_def byte_mask
  by (rule bit_word_eqI) (auto simp add: bit_simps dest: bit_imp_le_length)

text \<open>Every 32-bit colour is the packing of its own four channels.\<close>

lemma SColor_channels: "SColor (getAlpha c) (getRed c) (getGreen c) (getBlue c) = c"
proof -
  have "push_bit 24 (ucast (getAlpha c)) OR push_bit 16 (ucast (getRed c))
          OR push_bit 8 (ucast (getGreen c)) OR ucast (getBlue c) = color c"
    unfolding getAlpha_def getRed_def getGreen_def getBlue_def byte_mask
  proof (rule bit_word_eqI)
    fix n assume "n < LENGTH(32)"
    then consider "n < 8" | "8 \<le> n" "n < 16" | "16 \<le> n" "n < 24" | "24 \<le> n" "n < 32"
      by fastforce
    then show "bit (push_bit 24 (ucast (ucast (drop_bit 24 (color c) AND mask 8 :: u32) :: u8))
          OR push_bit 16 (ucast (ucast (drop_bit 16 (color c) AND mask 8 :: u32) :: u8))
          OR push_bit 8 (ucast (ucast (drop_bit 8 (color c) AND mask 8 :: u32) :: u8))
          OR ucast (ucast (color c AND mask 8 :: u32) :: u8) :: u32) n = bit (color c) n"
      by cases (auto simp add: bit_simps)
  qed
  then show ?thesis by (simp add: SColor_def)
qed

lemma RGBA8_to_from_SColor: "RGBA8_toSColor (RGBA8_fromSColor c) = c"
  by (simp add: RGBA8_fromSColor_def SColor_channels)

text \<open>
  C2. Converting \<open>RGBA8(r, g, b, a)\<close> to the packed colour and back gives the same
  pixel, every channel in its own place: the packed colour carries \<open>a\<close>, \<open>r\<close>, \<open>g\<close>,
  \<open>b\<close> as its alpha, red, green and blue.
\<close>

theorem RGBA8_roundtrip:
  "RGBA8_fromSColor (RGBA8_toSColor (RGBA8 r g b a)) = RGBA8 r g b a
   \<and> getAlpha (RGBA8_toSColor (RGBA8 r g b a)) = a
   \<and> getRed (RGBA8_toSColor (RGBA8 r g b a)) = r
   \<and> getGreen (RGBA8_toSColor (RGBA8 r g b a)) = g
   \<and> getBlue (RGBA8_toSColor (RGBA8 r g b a)) = b"
  by (simp add: RGBA8_fromSColor_def getAlpha_SColor getRed_SColor getGreen_SColor getBlue_SColor)

text \<open>
  C7. \<open>RGB8::fromSColor\<close> drops the alpha of the packed colour, \<open>RGB8::toSColor\<close>
  produces alpha 255 and the channels unchanged, so a packed colour that went through
  \<open>RGB8\<close> has alpha 255 whatever alpha it was built with.
\<close>

theorem RGB8_conversion:
  "RGB8_fromSColor (SColor a r g b) = RGB8 r g b
   \<and> getAlpha (RGB8_toSColor (RGB8 r g b)) = 255
   \<and> getRed (RGB8_toSColor (RGB8 r g b)) = r
   \<and> getGreen (RGB8_toSColor (RGB8 r g b)) = g
   \<and> getBlue (RGB8_toSColor (RGB8 r g b)) = b
   \<and> getAlpha (RGB8_toSColor (RGB8_fromSColor (SColor a r g b))) = 255
   \<and> RGB8_toSColor (RGB8_fromSColor (SColor a r g b)) = SColor 255 r g b"
  by (simp add: RGB8_fromSColor_def getAlpha_SColor getRed_SColor getGreen_SColor getBlue_SColor)

section \<open>The views\<close>

lemma View2d_InrD:
  assumes "View2d sz d w h ys = Inr V"
  shows "V = \<lparr>data_of = d, width_of = w, height_of = h, x_stride_of = of_nat sz,
              y_stride_of = (if ys > 0 then ys else of_nat (unat w * sz))\<rparr>"
    and "d \<noteq> nullptr \<or> (w = 0 \<and> h = 0)"
  using assms by (auto simp: View2d_def split: if_splits)

lemma unat_mult_of_nat:
  "unat (a * of_nat n :: u32) = (unat a * n) mod 2 ^ 32"
  by (simp add: unat_word_ariths unat_of_nat mod_mult_right_eq)

lemma unat_mult_of_nat_fit:
  "unat a * n < 2 ^ 32 \<Longrightarrow> unat (a * of_nat n :: u32) = unat a * n"
  by (simp add: unat_mult_of_nat)

lemma unat_mult_fit:
  fixes a b :: u32
  shows "unat a * unat b < 2 ^ 32 \<Longrightarrow> unat (a * b) = unat a * unat b"
  using unat_mult_lem [of a b] by simp

lemma unat_plus_below:
  fixes l x w w' :: u32
  assumes "l \<le> w" "w' \<le> w - l" "x < w'"
  shows "unat (l + x) = unat l + unat x" and "l + x < w"
  using assms by unat_arith+

lemma u32_succ:
  fixes x w :: u32
  assumes "x < w"
  shows "unat (x + 1) = Suc (unat x)"
  using assms by unat_arith

text \<open>
  The data model calls a view what has a row stride of at least its width times the
  element size. The constructor takes any stride, and it stores the default stride
  \<open>width * sizeof(T)\<close> in 32 bits: for a row of \<open>2^30\<close> four-byte pixels that is 0.
\<close>

lemma View2d_default_stride_wraps:
  "View2d sizeof_RGBA8 (Ptr 0) 0x40000000 1 0 =
     Inr \<lparr>data_of = Ptr 0, width_of = 0x40000000, height_of = 1, x_stride_of = 4, y_stride_of = 0\<rparr>"
  by (simp add: View2d_def sizeof_RGBA8_def)





section \<open>Memory\<close>

lemma layout_ok_RGBA8: "layout_ok layout_RGBA8"
  unfolding layout_ok_def
proof (intro conjI allI)
  show "0 < sizeof layout_RGBA8" by (simp add: layout_RGBA8_def sizeof_RGBA8_def)
  fix v show "length (to_bytes layout_RGBA8 v) = sizeof layout_RGBA8"
    by (cases v) (simp add: layout_RGBA8_def sizeof_RGBA8_def)
  show "of_bytes layout_RGBA8 (to_bytes layout_RGBA8 v) = v"
    by (cases v) (simp add: layout_RGBA8_def RGBA8_of_bytes_def)
qed

lemma layout_ok_RGB8: "layout_ok layout_RGB8"
  unfolding layout_ok_def
proof (intro conjI allI)
  show "0 < sizeof layout_RGB8" by (simp add: layout_RGB8_def sizeof_RGB8_def)
  fix v show "length (to_bytes layout_RGB8 v) = sizeof layout_RGB8"
    by (cases v) (simp add: layout_RGB8_def sizeof_RGB8_def)
  show "of_bytes layout_RGB8 (to_bytes layout_RGB8 v) = v"
    by (cases v) (simp add: layout_RGB8_def RGB8_of_bytes_def)
qed

lemma layout_ok_R8: "layout_ok layout_R8"
  unfolding layout_ok_def
proof (intro conjI allI)
  show "0 < sizeof layout_R8" by (simp add: layout_R8_def sizeof_R8_def)
  fix v show "length (to_bytes layout_R8 v) = sizeof layout_R8"
    by (cases v) (simp add: layout_R8_def sizeof_R8_def)
  show "of_bytes layout_R8 (to_bytes layout_R8 v) = v"
    by (cases v) (simp add: layout_R8_def R8_of_bytes_def)
qed

text \<open>A store replaces the bytes it covers and keeps the length and every other byte.\<close>

lemma store_nth:
  assumes st: "store L mem (Ptr a) v = Inr mem'"
    and len: "length (to_bytes L v) = sizeof L"
  shows "a + sizeof L \<le> length mem" and "length mem' = length mem"
    and "k < length mem \<Longrightarrow>
           mem' ! k = (if a \<le> k \<and> k < a + sizeof L then to_bytes L v ! (k - a) else mem ! k)"
proof -
  from st show in_range: "a + sizeof L \<le> length mem"
    by (auto simp: store_def split: if_splits)
  from st in_range have mem': "mem' = take a mem @ to_bytes L v @ drop (a + sizeof L) mem"
    by (simp add: store_def)
  show "length mem' = length mem"
    using in_range len by (simp add: mem')
  show "mem' ! k = (if a \<le> k \<and> k < a + sizeof L then to_bytes L v ! (k - a) else mem ! k)"
    if "k < length mem"
    using that in_range len by (auto simp: mem' nth_append min_def)
qed

lemma load_bytes:
  assumes "b + sizeof L \<le> length mem"
  shows "load L mem (Ptr b) = Inr (of_bytes L (map (\<lambda>i. mem ! (b + i)) [0..<sizeof L]))"
proof -
  have "take (sizeof L) (drop b mem) = map (\<lambda>i. mem ! (b + i)) [0..<sizeof L]"
    using assms by (intro nth_equalityI) simp_all
  with assms show ?thesis by (simp add: load_def)
qed

text \<open>
  A load after a store gives the stored value through the same pointer, and what it
  gave before through a pointer whose bytes the store did not cover.
\<close>

lemma load_store_same:
  assumes ok: "layout_ok L" and st: "store L mem p v = Inr mem'"
  shows "load L mem' p = Inr v"
proof (cases p)
  case nullptr
  with st show ?thesis by (simp add: store_def)
next
  case (Ptr a)
  from ok have len: "length (to_bytes L v) = sizeof L" and inv: "of_bytes L (to_bytes L v) = v"
    by (simp_all add: layout_ok_def)
  note s = store_nth [OF st [unfolded Ptr] len]
  have "map (\<lambda>i. mem' ! (a + i)) [0..<sizeof L] = to_bytes L v"
    using s(1) len by (intro nth_equalityI) (simp_all add: s(3))
  with load_bytes [of a L mem'] s(1,2) inv Ptr show ?thesis by simp
qed

lemma load_store_other:
  assumes ok: "layout_ok L" and st: "store L mem (Ptr a) v = Inr mem'"
    and apart: "b + sizeof L \<le> a \<or> a + sizeof L \<le> b"
  shows "load L mem' (Ptr b) = load L mem (Ptr b)"
proof (cases "b + sizeof L \<le> length mem")
  case False
  from ok have len: "length (to_bytes L v) = sizeof L" by (simp add: layout_ok_def)
  from store_nth(2) [OF st len] False show ?thesis by (simp add: load_def)
next
  case True
  from ok have len: "length (to_bytes L v) = sizeof L" by (simp add: layout_ok_def)
  note s = store_nth [OF st len]
  have "map (\<lambda>i. mem' ! (b + i)) [0..<sizeof L] = map (\<lambda>i. mem ! (b + i)) [0..<sizeof L]"
    using True apart by (intro map_cong refl) (auto simp: s(3))
  with load_bytes [of b L mem'] load_bytes [OF True] True s(2) show ?thesis by simp
qed

section \<open>Sub-views alias their parent\<close>

text \<open>
  Where no product wraps, \<open>at(x, y)\<close> is \<open>y\<close> rows and \<open>x\<close> elements after the base.
  The products do not wrap when the rows do not overlap and the last row starts
  less than \<open>2^32\<close> bytes after the base.
\<close>

lemma at_offset:
  assumes "data_of V = Ptr off" "x_stride_of V = of_nat sz"
    and inv: "unat (width_of V) * sz \<le> unat (y_stride_of V)"
    and fit: "(unat (height_of V) - 1) * unat (y_stride_of V) < 2 ^ 32"
    and xy: "x < width_of V" "y < height_of V"
  shows "at V x y = Inr (Ptr (off + unat y * unat (y_stride_of V) + unat x * sz))"
proof -
  have X: "unat x < unat (width_of V)" and Y: "unat y < unat (height_of V)"
    using xy by (simp_all add: word_less_nat_alt)
  have "unat y * unat (y_stride_of V) \<le> (unat (height_of V) - 1) * unat (y_stride_of V)"
    by (rule mult_le_mono1) (use Y in simp)
  then have "unat y * unat (y_stride_of V) < 2 ^ 32"
    using fit by (rule le_less_trans)
  then have 1: "unat (y * y_stride_of V) = unat y * unat (y_stride_of V)"
    by (rule unat_mult_fit)
  have "unat x * sz \<le> unat (width_of V) * sz"
    by (rule mult_le_mono1) (use X in simp)
  also have "\<dots> \<le> unat (y_stride_of V)" by (rule inv)
  also have "\<dots> < 2 ^ 32" using unsigned_less [of "y_stride_of V"] by simp
  finally have 2: "unat (x * of_nat sz :: u32) = unat x * sz"
    by (rule unat_mult_of_nat_fit)
  show ?thesis
    using xy assms(1,2) 1 2 by (simp add: at_def)
qed

text \<open>Rows that do not overlap: elements at distinct coordinates share no byte.\<close>

lemma offset_apart:
  fixes YS sz :: nat
  assumes ne: "x \<noteq> x' \<or> y \<noteq> y'"
    and "x < W" "x' < W" "W * sz \<le> YS"
  shows "off + y * YS + x * sz + sz \<le> off + y' * YS + x' * sz
       \<or> off + y' * YS + x' * sz + sz \<le> off + y * YS + x * sz"
proof -
  have "Suc x * sz \<le> W * sz" "Suc x' * sz \<le> W * sz"
    using assms(2,3) by (simp_all only: mult_le_mono1 Suc_leI)
  with assms(4) have xs: "x * sz + sz \<le> YS" "x' * sz + sz \<le> YS"
    by simp_all
  from ne consider "y < y'" | "y' < y" | "y = y'" "x < x'" | "y = y'" "x' < x"
    by linarith
  then show ?thesis
  proof cases
    case 1
    then have "Suc y * YS \<le> y' * YS" by (intro mult_le_mono1) simp
    then have "y * YS + YS \<le> y' * YS" by simp
    with xs show ?thesis by linarith
  next
    case 2
    then have "Suc y' * YS \<le> y * YS" by (intro mult_le_mono1) simp
    then have "y' * YS + YS \<le> y * YS" by simp
    with xs show ?thesis by linarith
  next
    case 3
    then have "Suc x * sz \<le> x' * sz" by (intro mult_le_mono1) simp
    then have "x * sz + sz \<le> x' * sz" by simp
    with 3 show ?thesis by simp
  next
    case 4
    then have "Suc x' * sz \<le> x * sz" by (intro mult_le_mono1) simp
    then have "x' * sz + sz \<le> x * sz" by simp
    with 4 show ?thesis by simp
  qed
qed

text \<open>
  Aliasing where nothing wraps. Let \<open>V\<close> be a view whose rows do not overlap and
  whose last row starts less than \<open>2^32\<close> bytes after the base. Then element
  \<open>(x, y)\<close> of \<open>V.drop(l, t)\<close>, and of every \<open>take\<close> of it, is at the pointer of element
  \<open>(l + x, t + y)\<close> of \<open>V\<close>, and a store through it changes that element of \<open>V\<close> and
  no other element of \<open>V\<close>, whatever the memory holds.
\<close>

lemma subview_aliases:
  assumes V: "View2d sz d w h ys = Inr V"
    and ok: "layout_ok L" and szL: "sz = sizeof L"
    and inv: "unat (width_of V) * sz \<le> unat (y_stride_of V)"
    and fit: "(unat (height_of V) - 1) * unat (y_stride_of V) < 2 ^ 32"
    and le: "l \<le> width_of V" "t \<le> height_of V"
    and le': "w' \<le> width_of V - l" "h' \<le> height_of V - t"
    and xy: "x < w'" "y < h'"
  shows "\<exists>S T p. View2d_drop sz V l t = Inr S \<and> View2d_take sz S w' h' = Inr T
      \<and> width_of T = w' \<and> height_of T = h'
      \<and> at T x y = Inr p \<and> at S x y = Inr p \<and> at V (l + x) (t + y) = Inr p
      \<and> (\<forall>mem v mem'. store L mem p v = Inr mem' \<longrightarrow>
           (\<forall>x' y'. x' < width_of V \<and> y' < height_of V \<longrightarrow>
              (\<exists>q. at V x' y' = Inr q
                 \<and> load L mem' q = (if x' = l + x \<and> y' = t + y then Inr v else load L mem q))))"
proof -
  from ok szL have sz: "0 < sz" by (simp add: layout_ok_def)
  note V' = View2d_InrD [OF V]
  define YS where "YS = unat (y_stride_of V)"
  have lx: "unat (l + x) = unat l + unat x" "l + x < width_of V"
    using unat_plus_below [OF le(1) le'(1) xy(1)] by simp_all
  have ty: "unat (t + y) = unat t + unat y" "t + y < height_of V"
    using unat_plus_below [OF le(2) le'(2) xy(2)] by simp_all
  have wpos: "0 < unat (width_of V)"
    using lx(2) by (simp add: word_less_nat_alt)
  then have "w \<noteq> 0" using V'(1) by auto
  with V'(2) obtain off where d: "d = Ptr off" by (cases d) auto
  have dV: "data_of V = Ptr off" and xsV: "x_stride_of V = of_nat sz"
    using V'(1) d by simp_all
  have pos: "0 < unat (width_of V) * sz" using wpos sz by simp
  have YSpos: "0 < YS" unfolding YS_def using pos inv by (rule less_le_trans)
  then have ysne: "y_stride_of V \<noteq> 0" by (auto simp: YS_def)
  have YSlt: "YS < 2 ^ 32" using unsigned_less [of "y_stride_of V"] by (simp add: YS_def)
  \<comment> \<open>the dropped view\<close>
  have "unat t + unat y < unat (height_of V)"
    using ty by (simp add: word_less_nat_alt)
  then have "unat t \<le> unat (height_of V) - 1" by simp
  then have "unat t * YS \<le> (unat (height_of V) - 1) * YS"
    by (rule mult_le_mono1)
  then have "unat t * YS < 2 ^ 32" using fit unfolding YS_def by (rule le_less_trans)
  then have tY: "unat (t * y_stride_of V) = unat t * YS"
    unfolding YS_def by (rule unat_mult_fit)
  have "unat l * sz \<le> unat (width_of V) * sz"
    by (rule mult_le_mono1) (use le(1) in \<open>simp add: word_le_nat_alt\<close>)
  also have "\<dots> \<le> YS" using inv by (simp add: YS_def)
  finally have "unat l * sz < 2 ^ 32" using YSlt by simp
  then have lX: "unat (l * of_nat sz :: u32) = unat l * sz"
    by (rule unat_mult_of_nat_fit)
  define S where "S = \<lparr>data_of = Ptr (off + unat t * YS + unat l * sz), width_of = width_of V - l,
     height_of = height_of V - t, x_stride_of = of_nat sz, y_stride_of = y_stride_of V\<rparr>"
  have dropS: "View2d_drop sz V l t = Inr S"
    using le ysne dV xsV tY lX by (simp add: View2d_drop_def View2d_def S_def word_gt_0)
  define T where "T = \<lparr>data_of = Ptr (off + unat t * YS + unat l * sz), width_of = w',
     height_of = h', x_stride_of = of_nat sz, y_stride_of = y_stride_of V\<rparr>"
  have takeT: "View2d_take sz S w' h' = Inr T"
    using le' ysne by (simp add: View2d_take_def View2d_def S_def T_def word_gt_0)
  \<comment> \<open>sizes of the sub-views\<close>
  have wS: "unat (width_of V - l) \<le> unat (width_of V)" and hS: "unat (height_of V - t) \<le> unat (height_of V)"
    using le by (simp_all add: unat_sub)
  have w'S: "unat w' \<le> unat (width_of V - l)" and h'S: "unat h' \<le> unat (height_of V - t)"
    using le' by (simp_all add: word_le_nat_alt)
  have invS: "unat (width_of S) * sz \<le> unat (y_stride_of S)"
    using wS inv by (simp add: S_def) (meson le_trans mult_le_mono1)
  have "(unat (height_of V - t) - 1) * YS \<le> (unat (height_of V) - 1) * YS"
    by (rule mult_le_mono1) (rule diff_le_mono [OF hS])
  then have fitS': "(unat (height_of V - t) - 1) * YS < 2 ^ 32"
    using fit unfolding YS_def by (rule le_less_trans)
  then have fitS: "(unat (height_of S) - 1) * unat (y_stride_of S) < 2 ^ 32"
    by (simp add: S_def YS_def)
  have invT: "unat (width_of T) * sz \<le> unat (y_stride_of T)"
    using w'S invS by (simp add: S_def T_def) (meson le_trans mult_le_mono1)
  have "(unat h' - 1) * YS \<le> (unat (height_of V - t) - 1) * YS"
    by (rule mult_le_mono1) (rule diff_le_mono [OF h'S])
  then have "(unat h' - 1) * YS < 2 ^ 32"
    using fitS' by (rule le_less_trans)
  then have fitT: "(unat (height_of T) - 1) * unat (y_stride_of T) < 2 ^ 32"
    by (simp add: T_def YS_def)
  define p where "p = Ptr (off + (unat t + unat y) * YS + (unat l + unat x) * sz)"
  have atT: "at T x y = Inr p"
    using at_offset [of T _ sz x y, OF _ _ invT fitT] xy
    by (simp add: T_def p_def YS_def algebra_simps)
  have xyS: "x < width_of S" "y < height_of S"
    using xy le' by (auto simp: S_def)
  have atS: "at S x y = Inr p"
    using at_offset [of S _ sz x y, OF _ _ invS fitS] xyS
    by (simp add: S_def p_def YS_def algebra_simps)
  have atV: "at V (l + x) (t + y) = Inr p"
    using at_offset [OF dV xsV inv fit lx(2) ty(2)] lx(1) ty(1)
    by (simp add: p_def YS_def)
  have frame: "\<exists>q. at V x' y' = Inr q
       \<and> load L mem' q = (if x' = l + x \<and> y' = t + y then Inr v else load L mem q)"
    if st: "store L mem p v = Inr mem'" and x'y': "x' < width_of V" "y' < height_of V"
    for mem v mem' x' y'
  proof -
    define q where "q = Ptr (off + unat y' * YS + unat x' * sz)"
    have atq: "at V x' y' = Inr q"
      using at_offset [OF dV xsV inv fit x'y'] by (simp add: q_def YS_def)
    show ?thesis
    proof (cases "x' = l + x \<and> y' = t + y")
      case True
      then have "q = p" using lx(1) ty(1) by (simp add: q_def p_def)
      with load_store_same [OF ok st] atq True show ?thesis by simp
    next
      case False
      then have "unat x' \<noteq> unat l + unat x \<or> unat y' \<noteq> unat t + unat y"
        using lx(1) ty(1) by (metis word_unat_eq_iff)
      then have "off + unat y' * YS + unat x' * sz + sz
                   \<le> off + (unat t + unat y) * YS + (unat l + unat x) * sz
               \<or> off + (unat t + unat y) * YS + (unat l + unat x) * sz + sz
                   \<le> off + unat y' * YS + unat x' * sz"
      proof (rule offset_apart)
        show "unat x' < unat (width_of V)" using x'y'(1) by (simp add: word_less_nat_alt)
        show "unat l + unat x < unat (width_of V)" using lx by (simp add: word_less_nat_alt)
        show "unat (width_of V) * sz \<le> YS" using inv by (simp add: YS_def)
      qed
      with load_store_other [OF ok st [unfolded p_def], of "off + unat y' * YS + unat x' * sz"]
      have "load L mem' q = load L mem q" by (simp add: q_def szL)
      with atq False show ?thesis by auto
    qed
  qed
  show ?thesis
    using dropS takeT atT atS atV frame by (intro exI [of _ S] exI [of _ T] exI [of _ p]) (simp add: T_def)
qed

text \<open>
  Scenario B: on a 10 by 10 \<open>RGBA8\<close> view \<open>drop(2, 2).take(3, 3)\<close> is 3 by 3, its
  element \<open>(0, 0)\<close> is element \<open>(2, 2)\<close> of the original, 88 bytes in, and a store
  there changes element \<open>(2, 2)\<close> of the original and no other.
\<close>

lemma scenario_B:
  "View2d sizeof_RGBA8 (Ptr 0) 10 10 0 = Inr \<lparr>data_of = Ptr 0, width_of = 10, height_of = 10, x_stride_of = 4, y_stride_of = 40\<rparr>
   \<and> View2d_drop sizeof_RGBA8 \<lparr>data_of = Ptr 0, width_of = 10, height_of = 10, x_stride_of = 4, y_stride_of = 40\<rparr> 2 2 =
     Inr \<lparr>data_of = Ptr 88, width_of = 8, height_of = 8, x_stride_of = 4, y_stride_of = 40\<rparr>
   \<and> View2d_take sizeof_RGBA8
        \<lparr>data_of = Ptr 88, width_of = 8, height_of = 8, x_stride_of = 4, y_stride_of = 40\<rparr> 3 3 =
     Inr \<lparr>data_of = Ptr 88, width_of = 3, height_of = 3, x_stride_of = 4, y_stride_of = 40\<rparr>
   \<and> at \<lparr>data_of = Ptr 88, width_of = 3, height_of = 3, x_stride_of = 4, y_stride_of = 40\<rparr> 0 0
       = Inr (Ptr 88)
   \<and> at \<lparr>data_of = Ptr 0, width_of = 10, height_of = 10, x_stride_of = 4, y_stride_of = 40\<rparr> 2 2 = Inr (Ptr 88)
   \<and> (\<forall>mem v mem'. store layout_RGBA8 mem (Ptr 88) v = Inr mem' \<longrightarrow>
         (\<forall>x' y'. x' < 10 \<and> y' < 10 \<longrightarrow>
            (\<exists>q. at \<lparr>data_of = Ptr 0, width_of = 10, height_of = 10, x_stride_of = 4, y_stride_of = 40\<rparr> x' y' = Inr q
               \<and> load layout_RGBA8 mem' q
                   = (if x' = 2 \<and> y' = 2 then Inr v else load layout_RGBA8 mem q))))"
  using subview_aliases [of sizeof_RGBA8 "Ptr 0" 10 10 0
      "\<lparr>data_of = Ptr 0, width_of = 10, height_of = 10, x_stride_of = 4, y_stride_of = 40\<rparr>"
      layout_RGBA8 2 2 3 3 0 0, OF _ layout_ok_RGBA8]
  by (simp add: View2d_def View2d_drop_def View2d_take_def at_def sizeof_RGBA8_def
        layout_RGBA8_def)

text \<open>
  C3. Element \<open>(x, y)\<close> of \<open>S = V.drop(l, t)\<close> should be element \<open>(l + x, t + y)\<close> of
  \<open>V\<close>. The code breaks this where a byte offset passes \<open>2^32\<close>: \<open>at\<close> multiplies
  in 32 bits, \<open>drop\<close> adds the offsets up in the pointer. On the view of 1 by 3
  \<open>R8\<close> pixels with a row stride of \<open>2^31\<close> bytes, \<open>drop(0, 1)\<close> starts \<open>2^31\<close> bytes
  in and its element \<open>(0, 1)\<close> is \<open>2^32\<close> bytes after the base, while \<open>at(0, 2)\<close> of
  the view itself is the base, the place of its element \<open>(0, 0)\<close>.
\<close>

theorem drop_then_at_wraps:
  "View2d sizeof_R8 (Ptr 0) 1 3 0x80000000 =
     Inr \<lparr>data_of = Ptr 0, width_of = 1, height_of = 3, x_stride_of = 1, y_stride_of = 0x80000000\<rparr>
   \<and> View2d_drop sizeof_R8
        \<lparr>data_of = Ptr 0, width_of = 1, height_of = 3, x_stride_of = 1, y_stride_of = 0x80000000\<rparr> 0 1 =
     Inr \<lparr>data_of = Ptr 2147483648, width_of = 1, height_of = 2, x_stride_of = 1, y_stride_of = 0x80000000\<rparr>
   \<and> at \<lparr>data_of = Ptr 2147483648, width_of = 1, height_of = 2, x_stride_of = 1, y_stride_of = 0x80000000\<rparr> 0 1
       = Inr (Ptr 4294967296)
   \<and> at \<lparr>data_of = Ptr 0, width_of = 1, height_of = 3, x_stride_of = 1, y_stride_of = 0x80000000\<rparr> (0 + 0) (1 + 1)
       = Inr (Ptr 0)
   \<and> at \<lparr>data_of = Ptr 0, width_of = 1, height_of = 3, x_stride_of = 1, y_stride_of = 0x80000000\<rparr> 0 0
       = Inr (Ptr 0)"
  by (simp add: View2d_def View2d_drop_def at_def sizeof_R8_def)

text \<open>The two pointers differ: the sub-view's element is not the parent's.\<close>

theorem drop_then_at_wraps_witness:
  "at \<lparr>data_of = Ptr 2147483648, width_of = 1, height_of = 2, x_stride_of = 1, y_stride_of = 0x80000000\<rparr> 0 1
     \<noteq> at \<lparr>data_of = Ptr 0, width_of = 1, height_of = 3, x_stride_of = 1, y_stride_of = 0x80000000\<rparr> (0 + 0) (1 + 1)"
  using drop_then_at_wraps by simp

section \<open>Filling an image\<close>

text \<open>
  The inner loop on a row that lies inside the allocation: it returns, and it has
  written the bytes of \<open>v\<close> over the elements from the counter's start to the end of
  the row and nothing else. \<open>r\<close> is the byte offset of the row.
\<close>

lemma mod_row:
  fixes j sz :: nat
  assumes "j < sz"
  shows "(m * sz + j) mod sz = j"
  using assms by simp

lemma fill_row_result:
  assumes ok: "layout_ok L"
    and room: "r + unat width * sizeof L \<le> length mem"
  shows "\<exists>mem'. fill_row L (Ptr r) width v x mem = Inr mem'
           \<and> length mem' = length mem
           \<and> (\<forall>k < length mem. mem' ! k =
                 (if r + unat x * sizeof L \<le> k \<and> k < r + unat width * sizeof L
                  then to_bytes L v ! ((k - r) mod sizeof L) else mem ! k))"
  using assms
proof (induction L "Ptr r" width v x mem rule: fill_row.induct)
  case (1 L width v x mem)
  define sz where "sz = sizeof L"
  from "1.prems"(1) have len: "length (to_bytes L v) = sz" and szpos: "0 < sz"
    by (simp_all add: layout_ok_def sz_def)
  show ?case
  proof (cases "x < width")
    case False
    then have "unat width \<le> unat x" by (simp add: word_less_nat_alt)
    then have "unat width * sz \<le> unat x * sz" by (rule mult_le_mono1)
    then have none: "\<not> (r + unat x * sz \<le> k \<and> k < r + unat width * sz)" for k by linarith
    show ?thesis
      by (subst fill_row.simps) (use False none in \<open>auto simp: sz_def\<close>)
  next
    case True
    then have X: "unat x < unat width" by (simp add: word_less_nat_alt)
    then have "Suc (unat x) * sz \<le> unat width * sz" by (intro mult_le_mono1) simp
    then have inrow: "r + unat x * sz + sz \<le> r + unat width * sz" by simp
    with "1.prems"(2) have "r + unat x * sz + sz \<le> length mem" by (simp add: sz_def)
    then obtain mem1 where st: "store L mem (Ptr (r + unat x * sz)) v = Inr mem1"
      by (simp add: store_def sz_def)
    note s = store_nth [OF st len [unfolded sz_def]]
    have st': "store L mem (ptr_add (Ptr r) (unat x * sizeof L)) v = Inr mem1"
      using st by (simp add: sz_def)
    from "1.hyps" [OF True st' "1.prems"(1)] "1.prems"(2) s(2)
    obtain mem' where rec: "fill_row L (Ptr r) width v (x + 1) mem1 = Inr mem'"
      and len': "length mem' = length mem"
      and el: "\<forall>k < length mem. mem' ! k =
                 (if r + unat (x + 1) * sz \<le> k \<and> k < r + unat width * sz
                  then to_bytes L v ! ((k - r) mod sz) else mem1 ! k)"
      by (auto simp: sz_def)
    have run: "fill_row L (Ptr r) width v x mem = Inr mem'"
      by (subst fill_row.simps) (simp add: True st [unfolded sz_def] rec)
    have "mem' ! k = (if r + unat x * sz \<le> k \<and> k < r + unat width * sz
                      then to_bytes L v ! ((k - r) mod sz) else mem ! k)"
      if k: "k < length mem" for k
    proof (cases "r + unat x * sz \<le> k \<and> k < r + unat x * sz + sz")
      case here: True
      then obtain j where j: "k = r + unat x * sz + j" "j < sz"
        by (metis add_less_cancel_left le_Suc_ex)
      have "mem' ! k = mem1 ! k"
        using el k here by (simp add: u32_succ [OF True])
      also have "\<dots> = to_bytes L v ! j"
        using s(3) [OF k] j by (simp add: sz_def)
      also have "j = (k - r) mod sz" using j by (simp add: mod_row)
      finally show ?thesis using here inrow by simp
    next
      case away: False
      then have "mem1 ! k = mem ! k" using s(3) [OF k] by (auto simp: sz_def)
      with el k away show ?thesis by (auto simp: u32_succ [OF True])
    qed
    with run len' show ?thesis by (auto simp: sz_def)
  qed
qed

text \<open>
  The outer loop on the tightly packed view of an owning array whose row offsets fit
  32 bits: it returns, and it has written the bytes of \<open>v\<close> over every element from
  row \<open>y\<close> on.
\<close>

lemma fill_rows_result:
  assumes ok: "layout_ok L"
    and data: "data_of V = Ptr 0"
    and ys: "y_stride_of V = of_nat (unat (width_of V) * sizeof L)"
    and fit: "\<And>Y. Y < unat (height_of V) \<Longrightarrow> Y * (unat (width_of V) * sizeof L) < 2 ^ 32"
    and len: "length mem = unat (height_of V) * (unat (width_of V) * sizeof L)"
  shows "\<exists>mem'. fill_rows L V v y mem = Inr mem'
           \<and> length mem' = length mem
           \<and> (\<forall>k < length mem. mem' ! k =
                 (if unat y * (unat (width_of V) * sizeof L) \<le> k
                  then to_bytes L v ! (k mod sizeof L) else mem ! k))"
  using assms
proof (induction L V v y mem rule: fill_rows.induct)
  case (1 L V v y mem)
  define RB where "RB = unat (width_of V) * sizeof L"
  have RBm: "(m * RB + j) mod sizeof L = j mod sizeof L" for m j
    unfolding RB_def mult.assoc [symmetric] by (rule mod_mult_self3)
  show ?case
  proof (cases "y < height_of V")
    case False
    then have "unat (height_of V) \<le> unat y" by (simp add: word_less_nat_alt)
    then have "unat (height_of V) * RB \<le> unat y * RB" by (rule mult_le_mono1)
    then have ge: "length mem \<le> unat y * RB" using "1.prems"(5) by (simp add: RB_def)
    show ?thesis
      by (subst fill_rows.simps) (use False ge in \<open>auto simp: RB_def\<close>)
  next
    case True
    then have Y: "unat y < unat (height_of V)" by (simp add: word_less_nat_alt)
    have "unat (y * y_stride_of V) = (unat y * RB) mod 2 ^ 32"
      unfolding "1.prems"(3) RB_def by (rule unat_mult_of_nat)
    also have "\<dots> = unat y * RB"
      using "1.prems"(4) [OF Y] by (simp add: RB_def)
    finally have rw: "row V y = Inr (Ptr (unat y * RB))"
      using True "1.prems"(2) by (simp add: row_def)
    have "Suc (unat y) * RB \<le> unat (height_of V) * RB"
      by (rule mult_le_mono1) (use Y in simp)
    then have room: "unat y * RB + unat (width_of V) * sizeof L \<le> length mem"
      using "1.prems"(5) by (simp add: RB_def)
    from fill_row_result [OF "1.prems"(1) room, of v 0]
    obtain mem1 where r1: "fill_row L (Ptr (unat y * RB)) (width_of V) v 0 mem = Inr mem1"
      and len1: "length mem1 = length mem"
      and el1: "\<forall>k < length mem. mem1 ! k =
                  (if unat y * RB \<le> k \<and> k < unat y * RB + RB
                   then to_bytes L v ! ((k - unat y * RB) mod sizeof L) else mem ! k)"
      by (auto simp: RB_def)
    from "1.IH" [OF True rw r1 "1.prems"(1,2,3,4)] "1.prems"(5) len1
    obtain mem' where r2: "fill_rows L V v (y + 1) mem1 = Inr mem'"
      and len2: "length mem' = length mem1"
      and el2: "\<forall>k < length mem1. mem' ! k =
                  (if unat (y + 1) * RB \<le> k then to_bytes L v ! (k mod sizeof L) else mem1 ! k)"
      by (auto simp: RB_def)
    have run: "fill_rows L V v y mem = Inr mem'"
      by (subst fill_rows.simps) (simp add: True rw r1 r2)
    have "mem' ! k = (if unat y * RB \<le> k then to_bytes L v ! (k mod sizeof L) else mem ! k)"
      if k: "k < length mem" for k
    proof (cases "unat y * RB \<le> k \<and> k < unat y * RB + RB")
      case here: True
      then obtain j where j: "k = unat y * RB + j"
        by (metis le_Suc_ex)
      have "mem' ! k = mem1 ! k"
        using el2 k len1 here by (simp add: u32_succ [OF True])
      also have "\<dots> = to_bytes L v ! ((k - unat y * RB) mod sizeof L)"
        using el1 k here by simp
      also have "(k - unat y * RB) mod sizeof L = k mod sizeof L"
        using j by (simp add: RBm)
      finally show ?thesis using here by simp
    next
      case away: False
      with el1 el2 k len1 show ?thesis by (auto simp: u32_succ [OF True])
    qed
    with run len1 len2 show ?thesis by (auto simp: RB_def)
  qed
qed

text \<open>After a fill of the whole array every element reads back as the filled value.\<close>

lemma load_filled:
  assumes ok: "layout_ok L"
    and len: "length mem = n * sizeof L"
    and el: "\<forall>k < length mem. mem ! k = to_bytes L v ! (k mod sizeof L)"
    and i: "i < n"
  shows "load L mem (Ptr (i * sizeof L)) = Inr v"
proof -
  from ok have szlen: "length (to_bytes L v) = sizeof L" and inv: "of_bytes L (to_bytes L v) = v"
    by (simp_all add: layout_ok_def)
  have "Suc i * sizeof L \<le> n * sizeof L" by (rule mult_le_mono1) (use i in simp)
  then have room: "i * sizeof L + sizeof L \<le> length mem" by (simp add: len)
  have "map (\<lambda>j. mem ! (i * sizeof L + j)) [0..<sizeof L] = to_bytes L v"
  proof (intro nth_equalityI)
    show "length (map (\<lambda>j. mem ! (i * sizeof L + j)) [0..<sizeof L]) = length (to_bytes L v)"
      by (simp add: szlen)
    fix j assume "j < length (map (\<lambda>j. mem ! (i * sizeof L + j)) [0..<sizeof L])"
    then have j: "j < sizeof L" by simp
    with room have "i * sizeof L + j < length mem" by simp
    with el have "mem ! (i * sizeof L + j) = to_bytes L v ! ((i * sizeof L + j) mod sizeof L)"
      by blast
    with j show "map (\<lambda>j. mem ! (i * sizeof L + j)) [0..<sizeof L] ! j = to_bytes L v ! j"
      by simp
  qed
  with load_bytes [OF room] inv show ?thesis by simp
qed

lemma index_in_range:
  fixes X Y W H :: nat
  assumes "X < W" "Y < H"
  shows "Y * W + X < W * H"
proof -
  have "Y * W + X < Suc Y * W" using assms(1) by simp
  also have "\<dots> \<le> H * W" by (rule mult_le_mono1) (use assms(2) in simp)
  finally show ?thesis by (simp add: mult.commute)
qed

text \<open>
  Filling where nothing wraps. For \<open>createRGBA8(w, h)\<close> with \<open>w, h > 0\<close> whose last
  pixel lies less than \<open>2^32\<close> bytes into the array, whatever the new array held:
  \<open>fill(c)\<close> returns, afterwards every element of the buffer is
  \<open>RGBA8::fromSColor(c)\<close>, and \<open>getPixel(x, y)\<close> returns exactly \<open>c\<close> for every
  \<open>x < w\<close>, \<open>y < h\<close>.
\<close>

lemma fill_then_getPixel_no_wrap:
  assumes pos: "0 < w" "0 < h"
    and last: "(unat w * unat h - 1) * sizeof_RGBA8 < 2 ^ 32"
  shows "\<exists>arr mem. createRGBA8 junk w h = Inr (Array2d_RGBA8 arr)
      \<and> fill (Array2d_RGBA8 arr) c = Inr (Array2d_RGBA8 (arr\<lparr>owned_data_of := mem\<rparr>))
      \<and> length mem = unat w * unat h * sizeof_RGBA8
      \<and> (\<forall>i < unat w * unat h.
            load layout_RGBA8 mem (Ptr (i * sizeof_RGBA8)) = Inr (RGBA8_fromSColor c))
      \<and> (\<forall>x y. x < w \<and> y < h \<longrightarrow>
            getPixel (Array2d_RGBA8 (arr\<lparr>owned_data_of := mem\<rparr>)) x y = Inr c)"
proof -
  define W where "W = unat w"
  define H where "H = unat h"
  define N where "N = W * H"
  let ?L = layout_RGBA8
  have sz: "sizeof ?L = 4" by (simp add: layout_RGBA8_def sizeof_RGBA8_def)
  have Hpos: "0 < H" and Wpos: "0 < W"
    using pos by (simp_all add: H_def W_def word_less_nat_alt)
  have last4: "(N - 1) * 4 < 2 ^ 32" using last by (simp add: N_def W_def H_def sizeof_RGBA8_def)
  then have "N < 2 ^ 32" by simp
  then have n: "unat (w * h) = N" unfolding N_def W_def H_def by (rule unat_mult_fit)
  have elem_fit: "i * 4 < 2 ^ 32" if "i < N" for i
    using that last4 by simp
  have row_in: "Y * W + X < N" if "X < W" "Y < H" for X Y
    unfolding N_def using that by (rule index_in_range)
  define V where "V = \<lparr>data_of = Ptr 0, width_of = w, height_of = h, x_stride_of = of_nat 4,
                        y_stride_of = of_nat (W * 4)\<rparr>"
  have Vf: "data_of V = Ptr 0" "width_of V = w" "height_of V = h"
    "x_stride_of V = of_nat 4" "y_stride_of V = of_nat (W * 4)"
    by (simp_all only: V_def view2d.simps)
  define arr where "arr = \<lparr>owned_data_of = map junk [0..<N * 4], view_of = V\<rparr>"
  have cr: "createRGBA8 junk w h = Inr (Array2d_RGBA8 arr)"
    by (simp add: createRGBA8_def Array2d_def View2d_def sizeof_RGBA8_def arr_def V_def n W_def)
  have fitV: "Y * (unat (width_of V) * sizeof ?L) < 2 ^ 32" if "Y < unat (height_of V)" for Y
  proof -
    have "Y * W + 0 < N" by (rule row_in) (use that Wpos in \<open>simp_all add: Vf H_def\<close>)
    then have "Y * W < N" by simp
    then have "(Y * W) * 4 < 2 ^ 32" by (rule elem_fit)
    then show ?thesis by (simp add: Vf sz W_def mult.assoc)
  qed
  have lenV: "length (owned_data_of arr) = unat (height_of V) * (unat (width_of V) * sizeof ?L)"
    by (simp add: arr_def Vf sz N_def W_def H_def)
  have ysV: "y_stride_of V = of_nat (unat (width_of V) * sizeof ?L)"
    by (simp only: Vf sz W_def)
  from fill_rows_result [OF layout_ok_RGBA8 Vf(1) ysV fitV lenV, of "RGBA8_fromSColor c" 0]
  obtain mem where fr: "fill_rows ?L V (RGBA8_fromSColor c) 0 (owned_data_of arr) = Inr mem"
    and len: "length mem = N * 4"
    and el: "\<forall>k < length mem. mem ! k = to_bytes ?L (RGBA8_fromSColor c) ! (k mod sizeof ?L)"
    by (auto simp: arr_def)
  have fl: "fill (Array2d_RGBA8 arr) c = Inr (Array2d_RGBA8 (arr\<lparr>owned_data_of := mem\<rparr>))"
    using fr by (simp add: fill_def isRGBA8_def get_RGBA8_def getView_def arr_def)
  have ld: "load ?L mem (Ptr (i * 4)) = Inr (RGBA8_fromSColor c)" if "i < N" for i
    using load_filled [OF layout_ok_RGBA8 _ el that] len by (simp add: sz)
  have gp: "getPixel (Array2d_RGBA8 (arr\<lparr>owned_data_of := mem\<rparr>)) x y = Inr c"
    if xy: "x < w" "y < h" for x y
  proof -
    have X: "unat x < W" and Y: "unat y < H"
      using xy by (simp_all add: W_def H_def word_less_nat_alt)
    have "unat (y * y_stride_of V) = (unat y * (W * 4)) mod 2 ^ 32"
      unfolding Vf by (rule unat_mult_of_nat)
    also have "\<dots> = unat y * (W * 4)"
      using fitV [of "unat y"] Y by (simp add: Vf sz W_def H_def)
    finally have ry: "unat (y * y_stride_of V) = unat y * W * 4" by simp
    have "unat x < N" using row_in [OF X Hpos] by simp
    then have "unat x * 4 < 2 ^ 32" by (rule elem_fit)
    then have rx: "unat (x * x_stride_of V) = unat x * 4"
      unfolding Vf by (rule unat_mult_of_nat_fit)
    have "at V x y = Inr (Ptr (unat y * W * 4 + unat x * 4))"
      using xy by (simp add: at_def Vf(1,2,3) ry rx)
    then have a: "at V x y = Inr (Ptr ((unat y * W + unat x) * 4))"
      by (simp add: algebra_simps)
    from ld [OF row_in [OF X Y]] a show ?thesis
      by (simp add: getPixel_def isRGBA8_def get_RGBA8_def getView_def arr_def
            RGBA8_to_from_SColor)
  qed
  show ?thesis
    using cr fl len ld gp
    by (intro exI [of _ arr] exI [of _ mem]) (simp add: W_def H_def N_def sizeof_RGBA8_def)
qed

lemma createRGBA8_10_10:
  "createRGBA8 zero_junk 10 10 = Inr (Array2d_RGBA8 \<lparr>owned_data_of = replicate 400 0,
            view_of = \<lparr>data_of = Ptr 0, width_of = 10, height_of = 10,
                        x_stride_of = 4, y_stride_of = 40\<rparr>\<rparr>)"
  by (simp add: createRGBA8_def Array2d_def View2d_def sizeof_RGBA8_def)
     (simp add: list_eq_iff_nth_eq zero_junk_def)

text \<open>
  Scenario A: a 10 by 10 image filled with the packed colour (A=255, R=255, G=0, B=0);
  every element is \<open>RGBA8(255, 0, 0, 255)\<close> and \<open>getPixel(5, 5)\<close> is that colour.
\<close>

lemma scenario_A:
  "\<exists>mem. fill (Array2d_RGBA8 \<lparr>owned_data_of = replicate 400 0, view_of = \<lparr>data_of = Ptr 0, width_of = 10, height_of = 10, x_stride_of = 4, y_stride_of = 40\<rparr>\<rparr>)
           (SColor 255 255 0 0)
         = Inr (Array2d_RGBA8 \<lparr>owned_data_of = mem, view_of = \<lparr>data_of = Ptr 0, width_of = 10, height_of = 10, x_stride_of = 4, y_stride_of = 40\<rparr>\<rparr>)
     \<and> length mem = 400
     \<and> (\<forall>i < 100. load layout_RGBA8 mem (Ptr (i * 4)) = Inr (RGBA8 255 0 0 255))
     \<and> getPixel (Array2d_RGBA8 \<lparr>owned_data_of = mem, view_of = \<lparr>data_of = Ptr 0, width_of = 10, height_of = 10, x_stride_of = 4, y_stride_of = 40\<rparr>\<rparr>) 5 5
         = Inr (SColor 255 255 0 0)"
proof -
  have c: "RGBA8_fromSColor (SColor 255 255 0 0) = RGBA8 255 0 0 255"
    by (simp add: RGBA8_fromSColor_def getAlpha_SColor getRed_SColor getGreen_SColor getBlue_SColor)
  from fill_then_getPixel_no_wrap [of 10 10 zero_junk "SColor 255 255 0 0"]
  obtain arr mem where cr: "createRGBA8 zero_junk 10 10 = Inr (Array2d_RGBA8 arr)"
    and fl: "fill (Array2d_RGBA8 arr) (SColor 255 255 0 0)
               = Inr (Array2d_RGBA8 (arr\<lparr>owned_data_of := mem\<rparr>))"
    and len: "length mem = 400"
    and el: "\<forall>i < 100. load layout_RGBA8 mem (Ptr (i * 4)) = Inr (RGBA8 255 0 0 255)"
    and gp: "getPixel (Array2d_RGBA8 (arr\<lparr>owned_data_of := mem\<rparr>)) 5 5 = Inr (SColor 255 255 0 0)"
    by (auto simp: sizeof_RGBA8_def c)
  from cr have arr: "arr = \<lparr>owned_data_of = replicate 400 0, view_of = \<lparr>data_of = Ptr 0, width_of = 10, height_of = 10, x_stride_of = 4, y_stride_of = 40\<rparr>\<rparr>"
    by (simp add: createRGBA8_10_10)
  show ?thesis
    using fl gp len el by (intro exI [of _ mem]) (simp add: arr)
qed

text \<open>
  C1. After \<open>createRGBA8(w, h)\<close> and \<open>fill(c)\<close> every element should be
  \<open>RGBA8::fromSColor(c)\<close> and \<open>getPixel(x, y)\<close> should return \<open>c\<close>. The code breaks
  this where the element count \<open>w * h\<close> passes \<open>2^32\<close>: \<open>createRGBA8(65536, 65536)\<close>
  allocates \<open>65536 * 65536 mod 2^32 = 0\<close> elements under a view of 65536 by 65536,
  and the first store of \<open>fill\<close>, like the load of \<open>getPixel(5, 5)\<close>, is outside the
  array.
\<close>

theorem fill_past_wrapped_allocation:
  "createRGBA8 zero_junk 65536 65536 =
     Inr (Array2d_RGBA8 \<lparr>owned_data_of = [],
            view_of = \<lparr>data_of = Ptr 0, width_of = 65536, height_of = 65536,
                        x_stride_of = 4, y_stride_of = 262144\<rparr>\<rparr>)
   \<and> fill (Array2d_RGBA8 \<lparr>owned_data_of = [],
            view_of = \<lparr>data_of = Ptr 0, width_of = 65536, height_of = 65536,
                        x_stride_of = 4, y_stride_of = 262144\<rparr>\<rparr>) (SColor 255 255 0 0)
       = Inl InvalidAccess
   \<and> getPixel (Array2d_RGBA8 \<lparr>owned_data_of = [],
            view_of = \<lparr>data_of = Ptr 0, width_of = 65536, height_of = 65536,
                        x_stride_of = 4, y_stride_of = 262144\<rparr>\<rparr>) 5 5
       = Inl InvalidAccess"
  by (simp add: createRGBA8_def Array2d_def View2d_def sizeof_RGBA8_def layout_RGBA8_def
        fill_def getPixel_def isRGBA8_def get_RGBA8_def getView_def fill_rows.simps
        fill_row.simps row_def at_def store_def load_def)

section \<open>The container\<close>

text \<open>
  C6. A typed accessor for an alternative that is not live returns no view: it stops
  with the exception \<^verbatim>\<open>std::bad_variant_access\<close> of \<^verbatim>\<open>std::get\<close>.
\<close>

theorem wrong_variant_rejected:
  "(\<not> isRGBA8 img \<longrightarrow> getAsRGBA8 img = Inl BadVariantAccess)
   \<and> (\<not> isRGB8 img \<longrightarrow> getAsRGB8 img = Inl BadVariantAccess)
   \<and> (\<not> isR8 img \<longrightarrow> getAsR8 img = Inl BadVariantAccess)"
  by (cases img)
     (simp_all add: isRGBA8_def isRGB8_def isR8_def getAsRGBA8_def getAsRGB8_def getAsR8_def
        get_RGBA8_def get_RGB8_def get_R8_def)


theorem wrong_variant_rejected_witness:
  "createRGBA8 zero_junk 10 10 = Inr (Array2d_RGBA8 \<lparr>owned_data_of = replicate 400 0,
            view_of = \<lparr>data_of = Ptr 0, width_of = 10, height_of = 10,
                        x_stride_of = 4, y_stride_of = 40\<rparr>\<rparr>)
   \<and> \<not> isRGB8 (Array2d_RGBA8 \<lparr>owned_data_of = replicate 400 0,
            view_of = \<lparr>data_of = Ptr 0, width_of = 10, height_of = 10,
                        x_stride_of = 4, y_stride_of = 40\<rparr>\<rparr>)
   \<and> getAsRGB8 (Array2d_RGBA8 \<lparr>owned_data_of = replicate 400 0,
            view_of = \<lparr>data_of = Ptr 0, width_of = 10, height_of = 10,
                        x_stride_of = 4, y_stride_of = 40\<rparr>\<rparr>) = Inl BadVariantAccess"
  using wrong_variant_rejected
          [of "Array2d_RGBA8 \<lparr>owned_data_of = replicate 400 0,
            view_of = \<lparr>data_of = Ptr 0, width_of = 10, height_of = 10,
                        x_stride_of = 4, y_stride_of = 40\<rparr>\<rparr>"]
  by (simp add: createRGBA8_10_10 isRGB8_def)

lemma createR8_is: "createR8 junk w h = Inr img \<Longrightarrow> isR8 img \<and> \<not> isRGBA8 img \<and> \<not> isRGB8 img"
  by (auto simp: createR8_def isR8_def isRGBA8_def isRGB8_def split: sum.splits)


lemma createR8_2_2:
  "createR8 index_junk 2 2 = Inr (Array2d_R8 \<lparr>owned_data_of = [0, 1, 2, 3],
            view_of = \<lparr>data_of = Ptr 0, width_of = 2, height_of = 2,
                        x_stride_of = 1, y_stride_of = 2\<rparr>\<rparr>)"
  by (simp add: createR8_def Array2d_def View2d_def sizeof_R8_def)
     (simp add: upt_conv_Cons index_junk_def)

text \<open>
  C8. On an image created by \<open>createR8\<close>, \<open>fill(c)\<close> and \<open>setPixel(x, y, c)\<close> return
  with the image as it was, pixel buffer included, for every colour and every
  coordinate.
\<close>

theorem R8_fill_setPixel_noop:
  assumes "createR8 junk w h = Inr img"
  shows "fill img c = Inr img \<and> setPixel img x y c = Inr img"
  using createR8_is [OF assms] by (simp add: fill_def setPixel_def)


theorem R8_fill_setPixel_noop_witness:
  "createR8 index_junk 2 2 = Inr (Array2d_R8 \<lparr>owned_data_of = [0, 1, 2, 3],
            view_of = \<lparr>data_of = Ptr 0, width_of = 2, height_of = 2,
                        x_stride_of = 1, y_stride_of = 2\<rparr>\<rparr>)
   \<and> fill (Array2d_R8 \<lparr>owned_data_of = [0, 1, 2, 3],
            view_of = \<lparr>data_of = Ptr 0, width_of = 2, height_of = 2,
                        x_stride_of = 1, y_stride_of = 2\<rparr>\<rparr>) (SColor 255 255 0 0)
       = Inr (Array2d_R8 \<lparr>owned_data_of = [0, 1, 2, 3],
            view_of = \<lparr>data_of = Ptr 0, width_of = 2, height_of = 2,
                        x_stride_of = 1, y_stride_of = 2\<rparr>\<rparr>)
   \<and> setPixel (Array2d_R8 \<lparr>owned_data_of = [0, 1, 2, 3],
            view_of = \<lparr>data_of = Ptr 0, width_of = 2, height_of = 2,
                        x_stride_of = 1, y_stride_of = 2\<rparr>\<rparr>) 1 1 (SColor 255 255 0 0)
       = Inr (Array2d_R8 \<lparr>owned_data_of = [0, 1, 2, 3],
            view_of = \<lparr>data_of = Ptr 0, width_of = 2, height_of = 2,
                        x_stride_of = 1, y_stride_of = 2\<rparr>\<rparr>)"
  using R8_fill_setPixel_noop [OF createR8_2_2, of "SColor 255 255 0 0" 1 1]
  by (simp add: createR8_2_2)

text \<open>
  C10. On an image created by \<open>createR8\<close>, \<open>getPixel(x, y)\<close> returns
  \<open>SColor(0, 0, 0, 0)\<close>, the 32-bit value 0, for every coordinate and whatever the
  buffer holds.
\<close>

theorem R8_getPixel_zero:
  assumes "createR8 junk w h = Inr img"
  shows "getPixel img x y = Inr (SColor 0 0 0 0) \<and> color (SColor 0 0 0 0) = 0
         \<and> getAlpha (SColor 0 0 0 0) = 0 \<and> getRed (SColor 0 0 0 0) = 0
         \<and> getGreen (SColor 0 0 0 0) = 0 \<and> getBlue (SColor 0 0 0 0) = 0"
  using createR8_is [OF assms]
  by (simp add: getPixel_def getAlpha_SColor getRed_SColor getGreen_SColor getBlue_SColor)
     (simp add: SColor_def)


theorem R8_getPixel_zero_witness:
  "createR8 index_junk 2 2 = Inr (Array2d_R8 \<lparr>owned_data_of = [0, 1, 2, 3],
            view_of = \<lparr>data_of = Ptr 0, width_of = 2, height_of = 2,
                        x_stride_of = 1, y_stride_of = 2\<rparr>\<rparr>)
   \<and> load layout_R8 [0, 1, 2, 3] (Ptr 3) = Inr (R8 3)
   \<and> getPixel (Array2d_R8 \<lparr>owned_data_of = [0, 1, 2, 3],
            view_of = \<lparr>data_of = Ptr 0, width_of = 2, height_of = 2,
                        x_stride_of = 1, y_stride_of = 2\<rparr>\<rparr>) 1 1 = Inr (SColor 0 0 0 0)
   \<and> color (SColor 0 0 0 0) = 0"
  using R8_getPixel_zero [OF createR8_2_2, of 1 1]
  by (simp add: createR8_2_2 load_def layout_R8_def sizeof_R8_def R8_of_bytes_def)

text \<open>
  C9. Exactly one of \<open>isRGBA8\<close>, \<open>isRGB8\<close>, \<open>isR8\<close> holds of an image. The factories
  fix the live alternative and the size; \<open>fill\<close> and \<open>setPixel\<close>, the operations that
  change an image, return an image with the same live alternative, width and height.
  \<open>getPixel\<close> and the typed accessors are functions of the image that return a colour
  or a view and no image: they change nothing.
\<close>

theorem variant_and_size_fixed:
  "((isRGBA8 img \<and> \<not> isRGB8 img \<and> \<not> isR8 img)
      \<or> (\<not> isRGBA8 img \<and> isRGB8 img \<and> \<not> isR8 img)
      \<or> (\<not> isRGBA8 img \<and> \<not> isRGB8 img \<and> isR8 img))
   \<and> (\<forall>col img'. fill img col = Inr img' \<longrightarrow>
          isRGBA8 img' = isRGBA8 img \<and> isRGB8 img' = isRGB8 img \<and> isR8 img' = isR8 img
          \<and> getWidth img' = getWidth img \<and> getHeight img' = getHeight img)
   \<and> (\<forall>x y col img'. setPixel img x y col = Inr img' \<longrightarrow>
          isRGBA8 img' = isRGBA8 img \<and> isRGB8 img' = isRGB8 img \<and> isR8 img' = isR8 img
          \<and> getWidth img' = getWidth img \<and> getHeight img' = getHeight img)
   \<and> (\<forall>junk w h. createRGBA8 junk w h = Inr img \<longrightarrow>
          isRGBA8 img \<and> getWidth img = w \<and> getHeight img = h)
   \<and> (\<forall>junk w h. createRGB8 junk w h = Inr img \<longrightarrow>
          isRGB8 img \<and> getWidth img = w \<and> getHeight img = h)
   \<and> (\<forall>junk w h. createR8 junk w h = Inr img \<longrightarrow>
          isR8 img \<and> getWidth img = w \<and> getHeight img = h)"
proof -
  have one: "(isRGBA8 img \<and> \<not> isRGB8 img \<and> \<not> isR8 img)
      \<or> (\<not> isRGBA8 img \<and> isRGB8 img \<and> \<not> isR8 img)
      \<or> (\<not> isRGBA8 img \<and> \<not> isRGB8 img \<and> isR8 img)"
    by (cases img) (simp_all add: isRGBA8_def isRGB8_def isR8_def)
  have f: "isRGBA8 img' = isRGBA8 img \<and> isRGB8 img' = isRGB8 img \<and> isR8 img' = isR8 img
          \<and> getWidth img' = getWidth img \<and> getHeight img' = getHeight img"
    if "fill img col = Inr img'" for col img'
    using that
    by (cases img)
       (auto simp: fill_def isRGBA8_def isRGB8_def isR8_def get_RGBA8_def get_RGB8_def
          getWidth_def getHeight_def split: sum.splits)
  have s: "isRGBA8 img' = isRGBA8 img \<and> isRGB8 img' = isRGB8 img \<and> isR8 img' = isR8 img
          \<and> getWidth img' = getWidth img \<and> getHeight img' = getHeight img"
    if "setPixel img x y col = Inr img'" for x y col img'
    using that
    by (cases img)
       (auto simp: setPixel_def isRGBA8_def isRGB8_def isR8_def get_RGBA8_def get_RGB8_def
          getWidth_def getHeight_def split: sum.splits)
  have c1: "isRGBA8 img \<and> getWidth img = w \<and> getHeight img = h"
    if "createRGBA8 junk w h = Inr img" for junk w h
    using that
    by (auto simp: createRGBA8_def Array2d_def View2d_def isRGBA8_def getWidth_def getHeight_def
          split: sum.splits if_splits)
  have c2: "isRGB8 img \<and> getWidth img = w \<and> getHeight img = h"
    if "createRGB8 junk w h = Inr img" for junk w h
    using that
    by (auto simp: createRGB8_def Array2d_def View2d_def isRGB8_def getWidth_def getHeight_def
          split: sum.splits if_splits)
  have c3: "isR8 img \<and> getWidth img = w \<and> getHeight img = h"
    if "createR8 junk w h = Inr img" for junk w h
    using that
    by (auto simp: createR8_def Array2d_def View2d_def isR8_def getWidth_def getHeight_def
          split: sum.splits if_splits)
  show ?thesis
    using one f s c1 c2 c3 by blast
qed


lemma createRGBA8_2_2:
  "createRGBA8 zero_junk 2 2 = Inr (Array2d_RGBA8 \<lparr>owned_data_of = [0, 0, 0, 0, 0, 0, 0, 0, 0, 0, 0, 0, 0, 0, 0, 0],
            view_of = \<lparr>data_of = Ptr 0, width_of = 2, height_of = 2,
                        x_stride_of = 4, y_stride_of = 8\<rparr>\<rparr>)"
  by (simp add: createRGBA8_def Array2d_def View2d_def sizeof_RGBA8_def)
     (simp add: upt_conv_Cons zero_junk_def)

lemma fill_2_2:
  "fill (Array2d_RGBA8 \<lparr>owned_data_of = [0, 0, 0, 0, 0, 0, 0, 0, 0, 0, 0, 0, 0, 0, 0, 0],
            view_of = \<lparr>data_of = Ptr 0, width_of = 2, height_of = 2,
                        x_stride_of = 4, y_stride_of = 8\<rparr>\<rparr>) (SColor 255 255 0 0)
     = Inr (Array2d_RGBA8 \<lparr>owned_data_of = [255, 0, 0, 255, 255, 0, 0, 255, 255, 0, 0, 255, 255, 0, 0, 255],
            view_of = \<lparr>data_of = Ptr 0, width_of = 2, height_of = 2,
                        x_stride_of = 4, y_stride_of = 8\<rparr>\<rparr>)"
  by (simp add: fill_def isRGBA8_def get_RGBA8_def getView_def layout_RGBA8_def sizeof_RGBA8_def
        fill_rows.simps fill_row.simps row_def store_def
        RGBA8_fromSColor_def getAlpha_SColor getRed_SColor getGreen_SColor getBlue_SColor)

lemma setPixel_2_2:
  "setPixel (Array2d_RGBA8 \<lparr>owned_data_of = [255, 0, 0, 255, 255, 0, 0, 255, 255, 0, 0, 255, 255, 0, 0, 255],
            view_of = \<lparr>data_of = Ptr 0, width_of = 2, height_of = 2,
                        x_stride_of = 4, y_stride_of = 8\<rparr>\<rparr>) 1 1 (SColor 0 0 0 0)
     = Inr (Array2d_RGBA8 \<lparr>owned_data_of = [255, 0, 0, 255, 255, 0, 0, 255, 255, 0, 0, 255, 0, 0, 0, 0],
            view_of = \<lparr>data_of = Ptr 0, width_of = 2, height_of = 2,
                        x_stride_of = 4, y_stride_of = 8\<rparr>\<rparr>)"
  by (simp add: setPixel_def isRGBA8_def get_RGBA8_def getView_def layout_RGBA8_def sizeof_RGBA8_def
        at_def store_def
        RGBA8_fromSColor_def getAlpha_SColor getRed_SColor getGreen_SColor getBlue_SColor)

theorem variant_and_size_fixed_witness:
  "createRGBA8 zero_junk 2 2 = Inr (Array2d_RGBA8 \<lparr>owned_data_of = [0, 0, 0, 0, 0, 0, 0, 0, 0, 0, 0, 0, 0, 0, 0, 0],
            view_of = \<lparr>data_of = Ptr 0, width_of = 2, height_of = 2,
                        x_stride_of = 4, y_stride_of = 8\<rparr>\<rparr>)
   \<and> fill (Array2d_RGBA8 \<lparr>owned_data_of = [0, 0, 0, 0, 0, 0, 0, 0, 0, 0, 0, 0, 0, 0, 0, 0],
            view_of = \<lparr>data_of = Ptr 0, width_of = 2, height_of = 2,
                        x_stride_of = 4, y_stride_of = 8\<rparr>\<rparr>) (SColor 255 255 0 0)
       = Inr (Array2d_RGBA8 \<lparr>owned_data_of = [255, 0, 0, 255, 255, 0, 0, 255, 255, 0, 0, 255, 255, 0, 0, 255],
            view_of = \<lparr>data_of = Ptr 0, width_of = 2, height_of = 2,
                        x_stride_of = 4, y_stride_of = 8\<rparr>\<rparr>)
   \<and> isRGBA8 (Array2d_RGBA8 \<lparr>owned_data_of = [255, 0, 0, 255, 255, 0, 0, 255, 255, 0, 0, 255, 255, 0, 0, 255],
            view_of = \<lparr>data_of = Ptr 0, width_of = 2, height_of = 2,
                        x_stride_of = 4, y_stride_of = 8\<rparr>\<rparr>)
   \<and> getWidth (Array2d_RGBA8 \<lparr>owned_data_of = [255, 0, 0, 255, 255, 0, 0, 255, 255, 0, 0, 255, 255, 0, 0, 255],
            view_of = \<lparr>data_of = Ptr 0, width_of = 2, height_of = 2,
                        x_stride_of = 4, y_stride_of = 8\<rparr>\<rparr>) = 2
   \<and> getHeight (Array2d_RGBA8 \<lparr>owned_data_of = [255, 0, 0, 255, 255, 0, 0, 255, 255, 0, 0, 255, 255, 0, 0, 255],
            view_of = \<lparr>data_of = Ptr 0, width_of = 2, height_of = 2,
                        x_stride_of = 4, y_stride_of = 8\<rparr>\<rparr>) = 2
   \<and> setPixel (Array2d_RGBA8 \<lparr>owned_data_of = [255, 0, 0, 255, 255, 0, 0, 255, 255, 0, 0, 255, 255, 0, 0, 255],
            view_of = \<lparr>data_of = Ptr 0, width_of = 2, height_of = 2,
                        x_stride_of = 4, y_stride_of = 8\<rparr>\<rparr>) 1 1 (SColor 0 0 0 0)
       = Inr (Array2d_RGBA8 \<lparr>owned_data_of = [255, 0, 0, 255, 255, 0, 0, 255, 255, 0, 0, 255, 0, 0, 0, 0],
            view_of = \<lparr>data_of = Ptr 0, width_of = 2, height_of = 2,
                        x_stride_of = 4, y_stride_of = 8\<rparr>\<rparr>)
   \<and> isRGBA8 (Array2d_RGBA8 \<lparr>owned_data_of = [255, 0, 0, 255, 255, 0, 0, 255, 255, 0, 0, 255, 0, 0, 0, 0],
            view_of = \<lparr>data_of = Ptr 0, width_of = 2, height_of = 2,
                        x_stride_of = 4, y_stride_of = 8\<rparr>\<rparr>)
   \<and> getWidth (Array2d_RGBA8 \<lparr>owned_data_of = [255, 0, 0, 255, 255, 0, 0, 255, 255, 0, 0, 255, 0, 0, 0, 0],
            view_of = \<lparr>data_of = Ptr 0, width_of = 2, height_of = 2,
                        x_stride_of = 4, y_stride_of = 8\<rparr>\<rparr>) = 2
   \<and> getHeight (Array2d_RGBA8 \<lparr>owned_data_of = [255, 0, 0, 255, 255, 0, 0, 255, 255, 0, 0, 255, 0, 0, 0, 0],
            view_of = \<lparr>data_of = Ptr 0, width_of = 2, height_of = 2,
                        x_stride_of = 4, y_stride_of = 8\<rparr>\<rparr>) = 2"
proof -
  from variant_and_size_fixed [of "Array2d_RGBA8 \<lparr>owned_data_of = [0, 0, 0, 0, 0, 0, 0, 0, 0, 0, 0, 0, 0, 0, 0, 0],
            view_of = \<lparr>data_of = Ptr 0, width_of = 2, height_of = 2,
                        x_stride_of = 4, y_stride_of = 8\<rparr>\<rparr>"]
  have c: "isRGBA8 (Array2d_RGBA8 \<lparr>owned_data_of = [0, 0, 0, 0, 0, 0, 0, 0, 0, 0, 0, 0, 0, 0, 0, 0],
            view_of = \<lparr>data_of = Ptr 0, width_of = 2, height_of = 2,
                        x_stride_of = 4, y_stride_of = 8\<rparr>\<rparr>)
           \<and> getWidth (Array2d_RGBA8 \<lparr>owned_data_of = [0, 0, 0, 0, 0, 0, 0, 0, 0, 0, 0, 0, 0, 0, 0, 0],
            view_of = \<lparr>data_of = Ptr 0, width_of = 2, height_of = 2,
                        x_stride_of = 4, y_stride_of = 8\<rparr>\<rparr>) = 2
           \<and> getHeight (Array2d_RGBA8 \<lparr>owned_data_of = [0, 0, 0, 0, 0, 0, 0, 0, 0, 0, 0, 0, 0, 0, 0, 0],
            view_of = \<lparr>data_of = Ptr 0, width_of = 2, height_of = 2,
                        x_stride_of = 4, y_stride_of = 8\<rparr>\<rparr>) = 2"
    using createRGBA8_2_2 by blast
  from variant_and_size_fixed [of "Array2d_RGBA8 \<lparr>owned_data_of = [0, 0, 0, 0, 0, 0, 0, 0, 0, 0, 0, 0, 0, 0, 0, 0],
            view_of = \<lparr>data_of = Ptr 0, width_of = 2, height_of = 2,
                        x_stride_of = 4, y_stride_of = 8\<rparr>\<rparr>"] fill_2_2 c
  have f: "isRGBA8 (Array2d_RGBA8 \<lparr>owned_data_of = [255, 0, 0, 255, 255, 0, 0, 255, 255, 0, 0, 255, 255, 0, 0, 255],
            view_of = \<lparr>data_of = Ptr 0, width_of = 2, height_of = 2,
                        x_stride_of = 4, y_stride_of = 8\<rparr>\<rparr>)
           \<and> getWidth (Array2d_RGBA8 \<lparr>owned_data_of = [255, 0, 0, 255, 255, 0, 0, 255, 255, 0, 0, 255, 255, 0, 0, 255],
            view_of = \<lparr>data_of = Ptr 0, width_of = 2, height_of = 2,
                        x_stride_of = 4, y_stride_of = 8\<rparr>\<rparr>) = 2
           \<and> getHeight (Array2d_RGBA8 \<lparr>owned_data_of = [255, 0, 0, 255, 255, 0, 0, 255, 255, 0, 0, 255, 255, 0, 0, 255],
            view_of = \<lparr>data_of = Ptr 0, width_of = 2, height_of = 2,
                        x_stride_of = 4, y_stride_of = 8\<rparr>\<rparr>) = 2"
    by metis
  from variant_and_size_fixed [of "Array2d_RGBA8 \<lparr>owned_data_of = [255, 0, 0, 255, 255, 0, 0, 255, 255, 0, 0, 255, 255, 0, 0, 255],
            view_of = \<lparr>data_of = Ptr 0, width_of = 2, height_of = 2,
                        x_stride_of = 4, y_stride_of = 8\<rparr>\<rparr>"] setPixel_2_2 f
  have "isRGBA8 (Array2d_RGBA8 \<lparr>owned_data_of = [255, 0, 0, 255, 255, 0, 0, 255, 255, 0, 0, 255, 0, 0, 0, 0],
            view_of = \<lparr>data_of = Ptr 0, width_of = 2, height_of = 2,
                        x_stride_of = 4, y_stride_of = 8\<rparr>\<rparr>)
           \<and> getWidth (Array2d_RGBA8 \<lparr>owned_data_of = [255, 0, 0, 255, 255, 0, 0, 255, 255, 0, 0, 255, 0, 0, 0, 0],
            view_of = \<lparr>data_of = Ptr 0, width_of = 2, height_of = 2,
                        x_stride_of = 4, y_stride_of = 8\<rparr>\<rparr>) = 2
           \<and> getHeight (Array2d_RGBA8 \<lparr>owned_data_of = [255, 0, 0, 255, 255, 0, 0, 255, 255, 0, 0, 255, 0, 0, 0, 0],
            view_of = \<lparr>data_of = Ptr 0, width_of = 2, height_of = 2,
                        x_stride_of = 4, y_stride_of = 8\<rparr>\<rparr>) = 2"
    by metis
  with f show ?thesis
    by (simp add: createRGBA8_2_2 fill_2_2 setPixel_2_2)
qed

end
